theory Spec2Isabelle
  imports Main "HOL-Library.Char_ord" "HOL-Library.List_Lexorder"
begin

section \<open>rpi-vidlooper: a GPIO-controlled video looper\<close>

text \<open>
  A shallow embedding of \<^verbatim>\<open>src/rpi_vidlooper/vidlooper.py\<close>. The two libraries the
  program drives, RPi.GPIO and python-vlc, are not part of the repository: every call into
  them is recorded in a trace, and of the GPIO hardware only the level last written to each
  pin is kept. Their own failure modes (an invalid channel, a missing VLC library) are
  outside the model. Python exceptions are values of \<open>py_error\<close>; a method that mutates the
  object returns the exception raised (if any) together with the object and the world as
  they are at that moment.
\<close>

subsection \<open>Errors, effects and the world\<close>

datatype py_error =
    ValueError string          \<comment> \<open>\<^verbatim>\<open>ValueError(msg)\<close> raised by the pin parser\<close>
  | DuplicatePin int           \<comment> \<open>\<^verbatim>\<open>ValueError('Duplicate GPIO input pin: {}'.format(in_pin))\<close>\<close>
  | NotInTuple                 \<comment> \<open>\<^verbatim>\<open>ValueError\<close> of \<^verbatim>\<open>tuple.index\<close>\<close>
  | FileNotFoundError string   \<comment> \<open>the path that does not exist\<close>
  | NotADirectoryError string  \<comment> \<open>the path that \<^verbatim>\<open>os.listdir\<close> was given\<close>
  | NoVideosFound string       \<comment> \<open>\<^verbatim>\<open>Exception('No videos found in "{}". ...')\<close>, the directory\<close>
  | AssertionError string
  | IndexError
  | NameError string           \<comment> \<open>the name that is not defined\<close>
  | AttributeError string      \<comment> \<open>attribute access on \<^verbatim>\<open>None\<close>\<close>

datatype level = LOW | HIGH

text \<open>The values of \<^verbatim>\<open>vlc.State\<close>.\<close>

datatype vlc_state =
  NothingSpecial | Opening | Buffering | Playing | Paused | Stopped | Ended | EngineError

datatype callback = SwitchVid | ShutdownLambda

datatype effect =
    OsSystem string
  | GpioSetmodeBCM
  | GpioSetupIn int            \<comment> \<open>\<^verbatim>\<open>GPIO.setup(pin, GPIO.IN, pull_up_down=GPIO.PUD_UP)\<close>\<close>
  | GpioSetupOut int           \<comment> \<open>\<^verbatim>\<open>GPIO.setup(pin, GPIO.OUT)\<close>\<close>
  | GpioOutput int level
  | GpioAddEventDetect int callback nat  \<comment> \<open>pin, callback, bouncetime; always \<^verbatim>\<open>GPIO.FALLING\<close>\<close>
  | Subprocess "string list"   \<comment> \<open>an external process started with this argument vector\<close>
  | Print string
  | VlcInstance string
  | MediaPlayerNew
  | PlayerStop
  | MediaNew string
  | PlayerSetMedia string
  | PlayerPlay
  | MediaAddOption string string  \<comment> \<open>the media and the option added to it\<close>

record world =
  levels :: "int \<Rightarrow> level option"  \<comment> \<open>the level last written to a pin by \<^verbatim>\<open>GPIO.output\<close>\<close>
  trace :: "effect list"             \<comment> \<open>every external call so far, oldest first\<close>

definition world0 :: world where
  "world0 = \<lparr>levels = (\<lambda>_. None), trace = []\<rparr>"

definition emit :: "effect \<Rightarrow> world \<Rightarrow> world" where
  "emit e w = w\<lparr>trace := trace w @ [e]\<rparr>"

definition gpio_output :: "int \<Rightarrow> level \<Rightarrow> world \<Rightarrow> world" where
  "gpio_output pin v w = w\<lparr>levels := (levels w)(pin \<mapsto> v), trace := trace w @ [GpioOutput pin v]\<rparr>"

text \<open>The commands sent to the playback engine, in order.\<close>

fun is_player_cmd :: "effect \<Rightarrow> bool" where
  "is_player_cmd (VlcInstance _) = True"
| "is_player_cmd MediaPlayerNew = True"
| "is_player_cmd PlayerStop = True"
| "is_player_cmd (MediaNew _) = True"
| "is_player_cmd (PlayerSetMedia _) = True"
| "is_player_cmd PlayerPlay = True"
| "is_player_cmd (MediaAddOption _ _) = True"
| "is_player_cmd _ = False"

definition player_cmds :: "world \<Rightarrow> effect list" where
  "player_cmds w = filter is_player_cmd (trace w)"

subsection \<open>The names the module binds\<close>

text \<open>
  Lines 6 to 13 import \<^verbatim>\<open>GPIO\<close>, \<^verbatim>\<open>os\<close>, \<^verbatim>\<open>sys\<close>, \<^verbatim>\<open>time\<close>, \<^verbatim>\<open>Lock\<close>,
  \<^verbatim>\<open>signal\<close>, \<^verbatim>\<open>argparse\<close> and \<^verbatim>\<open>vlc\<close>; the module itself defines two classes and
  \<^verbatim>\<open>main\<close>. A global name outside this list that is not a builtin raises
  \<^verbatim>\<open>NameError\<close> when it is evaluated. Only the two names looked up below go through
  \<open>resolve_global\<close>; neither is a Python builtin.
\<close>

definition module_globals :: "string list" where
  "module_globals = [''GPIO'', ''os'', ''sys'', ''time'', ''Lock'', ''signal'', ''argparse'',
     ''vlc'', ''_GpioParser'', ''VidLooper'', ''main'']"

definition resolve_global :: "string \<Rightarrow> py_error option" where
  "resolve_global n = (if n \<in> set module_globals then None else Some (NameError n))"

subsection \<open>Strings: \<^verbatim>\<open>str.split\<close>, \<^verbatim>\<open>int\<close>, \<^verbatim>\<open>os.path\<close>\<close>

text \<open>\<^verbatim>\<open>s.split(sep)\<close> for a one-character separator: never empty.\<close>

fun split_on :: "char \<Rightarrow> string \<Rightarrow> string list" where
  "split_on sep [] = [[]]"
| "split_on sep (c # cs) =
     (if c = sep then [] # split_on sep cs
      else (c # hd (split_on sep cs)) # tl (split_on sep cs))"

text \<open>
  \<^verbatim>\<open>int(s)\<close> on a string of code points below 256: surrounding whitespace is stripped,
  one sign is allowed, and single underscores may separate digits. \<open>None\<close> stands for
  \<^verbatim>\<open>ValueError\<close>. The whitespace \<^verbatim>\<open>int\<close> strips is tab to carriage return (9 to 13)
  and the space, and of the code points above 127 the next-line character (133) and the
  no-break space (160); the separators 28 to 31 are not stripped.
\<close>

definition is_space :: "char \<Rightarrow> bool" where
  "is_space c = (of_char c \<in> set [9, 10, 11, 12, 13, 32, 133, 160 :: nat])"

definition is_digit :: "char \<Rightarrow> bool" where
  "is_digit c = (48 \<le> (of_char c :: nat) \<and> (of_char c :: nat) \<le> 57)"

definition digit_val :: "char \<Rightarrow> nat" where
  "digit_val c = of_char c - 48"

definition strip :: "string \<Rightarrow> string" where
  "strip s = rev (dropWhile is_space (rev (dropWhile is_space s)))"

fun py_digits :: "string \<Rightarrow> bool \<Rightarrow> nat \<Rightarrow> nat option" where
  "py_digits [] prev acc = (if prev then Some acc else None)"
| "py_digits (c # cs) prev acc =
     (if is_digit c then py_digits cs True (10 * acc + digit_val c)
      else if c = CHR ''_'' \<and> prev \<and> cs \<noteq> [] then py_digits cs False acc
      else None)"

definition py_int :: "string \<Rightarrow> int option" where
  "py_int s =
     (case strip s of
        [] \<Rightarrow> None
      | c # cs \<Rightarrow>
          if c = CHR ''-'' then map_option (\<lambda>n. - int n) (py_digits cs False 0)
          else if c = CHR ''+'' then map_option int (py_digits cs False 0)
          else map_option int (py_digits (c # cs) False 0))"

text \<open>\<^verbatim>\<open>os.path.splitext\<close> and \<^verbatim>\<open>os.path.join\<close> of \<^verbatim>\<open>posixpath\<close>.\<close>

fun rfind :: "char \<Rightarrow> string \<Rightarrow> int" where
  "rfind c s = (case filter (\<lambda>i. s ! i = c) (rev [0..<length s]) of [] \<Rightarrow> -1 | i # _ \<Rightarrow> int i)"

definition splitext :: "string \<Rightarrow> string \<times> string" where
  "splitext p =
     (let sepIndex = rfind CHR ''/'' p; dotIndex = rfind CHR ''.'' p
      in if dotIndex > sepIndex
            \<and> list_ex (\<lambda>c. c \<noteq> CHR ''.'') (take (nat (dotIndex - (sepIndex + 1))) (drop (nat (sepIndex + 1)) p))
         then (take (nat dotIndex) p, drop (nat dotIndex) p)
         else (p, []))"

definition path_join :: "string \<Rightarrow> string \<Rightarrow> string" where
  "path_join a b =
     (if b \<noteq> [] \<and> hd b = CHR ''/'' then b
      else if a = [] \<or> last a = CHR ''/'' then a @ b
      else a @ ''/'' @ b)"

subsection \<open>\<^verbatim>\<open>_GpioParser.__call__\<close>\<close>

text \<open>
  A pin mapping is a Python dict from input pin to optional output pin. Its insertion order
  matters (the n-th key is paired with the n-th video), so it is an association list, in
  insertion order; a dict has no two equal keys.
\<close>

type_synonym pin_map = "(int \<times> int option) list"

text \<open>One iteration of the loop over \<^verbatim>\<open>pin_pairs\<close> (lines 22 to 42), then the loop.\<close>

fun parse_pairs :: "string list \<Rightarrow> pin_map \<Rightarrow> py_error + pin_map" where
  "parse_pairs [] gpio_dict = Inr gpio_dict"
| "parse_pairs (pair # rest) gpio_dict =
     (let pair_split = split_on CHR '':'' pair in
      if 0 = length pair_split \<and> length pair_split > 2
      then Inl (ValueError ''Invalid GPIO pin format'')
      else
        (case pair_split of
           [] \<Rightarrow> Inl IndexError
         | s0 # others \<Rightarrow>
            (case py_int s0 of
               None \<Rightarrow> Inl (ValueError ''GPIO input pin must be numeric integer'')
             | Some in_pin \<Rightarrow>
                (case (case others of
                         [] \<Rightarrow> Inr None
                       | s1 # _ \<Rightarrow>
                          (case py_int s1 of
                             None \<Rightarrow> Inl (ValueError ''GPIO output pin must be numeric integer'')
                           | Some n \<Rightarrow> Inr (Some n))) of
                   Inl e \<Rightarrow> Inl e
                 | Inr out_pin \<Rightarrow>
                     if in_pin \<in> set (map fst gpio_dict) then Inl (DuplicatePin in_pin)
                     else parse_pairs rest (gpio_dict @ [(in_pin, out_pin)])))))"

definition gpio_parser_call :: "string \<Rightarrow> py_error + pin_map" where
  "gpio_parser_call values = parse_pairs (split_on CHR '','' values) []"

subsection \<open>The controller object\<close>

record looper =
  gpio_pins :: pin_map
  shutdown_pin :: "int option"
  videos :: "string list"
  debug :: bool
  audio :: string
  autostart :: bool
  restart_on_press :: bool
  loop :: bool
  no_osd :: bool
  splash :: "string option"
  splashproc :: "string list option"  \<comment> \<open>the process started by \<^verbatim>\<open>Popen\<close>, by its arguments\<close>
  active_vid :: "string option"
  player :: bool                      \<comment> \<open>\<^verbatim>\<open>self._player is not None\<close>\<close>

text \<open>The keyword arguments of \<^verbatim>\<open>__init__\<close>; an absent or empty \<^verbatim>\<open>videos\<close> is \<open>[]\<close>.\<close>

record args =
  arg_audio :: string
  arg_autostart :: bool
  arg_restart_on_press :: bool
  arg_video_dir :: string
  arg_videos :: "string list"
  arg_gpio_pins :: "pin_map option"
  arg_loop :: bool
  arg_no_osd :: bool
  arg_shutdown_pin :: "int option"
  arg_splash :: "string option"
  arg_debug :: bool

text \<open>
  What the constructor sees of the file system: the paths that exist
  (\<^verbatim>\<open>os.path.exists\<close>) and the entries of each directory. \<^verbatim>\<open>os.listdir\<close> raises
  \<^verbatim>\<open>NotADirectoryError\<close> for a path that exists and is not a directory, and
  \<^verbatim>\<open>FileNotFoundError\<close> for a path that does not exist.
\<close>

record fs =
  paths :: "string list"
  dirs :: "(string \<times> string list) list"

definition path_exists :: "fs \<Rightarrow> string \<Rightarrow> bool" where
  "path_exists f p = (p \<in> set (paths f))"

definition listdir :: "fs \<Rightarrow> string \<Rightarrow> py_error + string list" where
  "listdir f d =
     (case map_of (dirs f) d of
        Some names \<Rightarrow> Inr names
      | None \<Rightarrow> if path_exists f d then Inl (NotADirectoryError d) else Inl (FileNotFoundError d))"

definition GPIO_BOUNCE_TIME :: nat where
  "GPIO_BOUNCE_TIME = 200"

definition VIDEO_EXTS :: "string list" where
  "VIDEO_EXTS = [''.mp4'', ''.m4v'', ''.mov'', ''.avi'', ''.mkv'']"

definition GPIO_PIN_DEFAULT :: pin_map where
  "GPIO_PIN_DEFAULT = [(26, Some 21), (19, Some 20), (13, Some 16), (6, Some 12)]"

subsection \<open>\<^verbatim>\<open>VidLooper.__init__\<close>\<close>

text \<open>The value assigned to \<^verbatim>\<open>self.videos\<close>: line 70, or lines 75 to 77.\<close>

definition self_videos :: "fs \<Rightarrow> args \<Rightarrow> py_error + string list" where
  "self_videos f a =
     (if arg_videos a \<noteq> [] then Inr (arg_videos a)
      else (case listdir f (arg_video_dir a) of
              Inl e \<Rightarrow> Inl e
            | Inr names \<Rightarrow>
                Inr (map (path_join (arg_video_dir a))
                       (filter (\<lambda>n. snd (splitext n) \<in> set VIDEO_EXTS) (sort names)))))"

text \<open>The check that follows the assignment: lines 71 to 73, or lines 78 to 80.\<close>

definition check_videos :: "fs \<Rightarrow> args \<Rightarrow> string list \<Rightarrow> py_error option" where
  "check_videos f a vs =
     (if arg_videos a \<noteq> [] then
        (case find (\<lambda>video. \<not> path_exists f video) vs of
           Some video \<Rightarrow> Some (FileNotFoundError video)
         | None \<Rightarrow> None)
      else if vs = [] then Some (NoVideosFound (arg_video_dir a))
      else None)"

text \<open>Lines 64 to 66: the mapping given, or a copy of the default one.\<close>

definition pins_of :: "args \<Rightarrow> pin_map" where
  "pins_of a = (case arg_gpio_pins a of None \<Rightarrow> GPIO_PIN_DEFAULT | Some d \<Rightarrow> d)"

definition init :: "fs \<Rightarrow> args \<Rightarrow> world \<Rightarrow> (py_error + looper) \<times> world" where
  "init f a w =
     (let pins = pins_of a in
      case self_videos f a of
        Inl e \<Rightarrow> (Inl e, w)
      | Inr vs \<Rightarrow>
         (case check_videos f a vs of
            Some e \<Rightarrow> (Inl e, w)
          | None \<Rightarrow>
             if \<not> length vs \<le> length pins
             then (Inl (AssertionError ''Not enough GPIO pins configured for number of videos''), w)
             else
               (Inr \<lparr>gpio_pins = pins, shutdown_pin = arg_shutdown_pin a, videos = vs,
                     debug = arg_debug a, audio = arg_audio a, autostart = arg_autostart a,
                     restart_on_press = arg_restart_on_press a, loop = arg_loop a,
                     no_osd = arg_no_osd a, splash = arg_splash a, splashproc = None,
                     active_vid = None, player = True\<rparr>,
                emit MediaPlayerNew (emit (VlcInstance (''--aout='' @ arg_audio a)) w))))"

text \<open>Whether the constructor returned an object.\<close>

definition constructed :: "(py_error + looper) \<times> world \<Rightarrow> bool" where
  "constructed r = (case fst r of Inl _ \<Rightarrow> False | Inr _ \<Rightarrow> True)"

subsection \<open>\<^verbatim>\<open>VidLooper.switch_vid\<close>\<close>

definition in_pins :: "looper \<Rightarrow> int list" where
  "in_pins l = map fst (gpio_pins l)"

text \<open>The output pins of a mapping: the values that are not \<^verbatim>\<open>None\<close>.\<close>

definition out_pins :: "pin_map \<Rightarrow> int list" where
  "out_pins pins = concat (map (\<lambda>(i, out). case out of None \<Rightarrow> [] | Some p \<Rightarrow> [p]) pins)"

text \<open>\<^verbatim>\<open>t.index(x)\<close>: the first position of \<open>x\<close>, \<open>None\<close> for \<^verbatim>\<open>ValueError\<close>.\<close>

fun index_of :: "'a list \<Rightarrow> 'a \<Rightarrow> nat option" where
  "index_of [] x = None"
| "index_of (y # ys) x = (if y = x then Some 0 else map_option Suc (index_of ys x))"

definition kill_process :: "looper \<Rightarrow> world \<Rightarrow> world" where
  "kill_process l w = (if player l then emit PlayerStop w else w)"

text \<open>Lines 105 to 108: every output pin is written, in the order of the mapping.\<close>

fun write_outputs :: "int \<Rightarrow> pin_map \<Rightarrow> world \<Rightarrow> world" where
  "write_outputs pin [] w = w"
| "write_outputs pin ((in_pin, out_pin) # rest) w =
     write_outputs pin rest
       (case out_pin of
          None \<Rightarrow> w
        | Some out \<Rightarrow> gpio_output out (if in_pin = pin then HIGH else LOW) w)"

text \<open>Lines 112 to 122, the body of the \<^verbatim>\<open>if\<close>.\<close>

definition play_file :: "string \<Rightarrow> looper \<Rightarrow> world \<Rightarrow> py_error option \<times> looper \<times> world" where
  "play_file filename l w =
     (let w1 = emit (MediaNew filename) (kill_process l (emit (Print filename) w)) in
      if \<not> player l then (Some (AttributeError ''set_media''), l, w1)
      else
        (let w2 = emit PlayerPlay (emit (PlayerSetMedia filename) w1);
             w3 = (if loop l
                   then emit (MediaAddOption filename ''input-repeat=-1'')
                          (emit (PlayerSetMedia filename) w2)
                   else w2)
         in (None, l\<lparr>active_vid := Some filename\<rparr>, w3)))"

definition switch_vid :: "int \<Rightarrow> looper \<Rightarrow> world \<Rightarrow> py_error option \<times> looper \<times> world" where
  "switch_vid pin l w =
     (let w1 = write_outputs pin (gpio_pins l) w in
      case index_of (in_pins l) pin of
        None \<Rightarrow> (Some NotInTuple, l, w1)
      | Some idx \<Rightarrow>
          if length (videos l) \<le> idx then (Some IndexError, l, w1)
          else
            (let filename = videos l ! idx in
             if Some filename \<noteq> active_vid l \<or> restart_on_press l
             then play_file filename l w1
             else (None, l, w1)))"

subsection \<open>\<^verbatim>\<open>VidLooper.start\<close>\<close>

text \<open>Lines 135 to 139.\<close>

fun setup_pins :: "pin_map \<Rightarrow> world \<Rightarrow> world" where
  "setup_pins [] w = w"
| "setup_pins ((in_pin, out_pin) # rest) w =
     setup_pins rest
       (case out_pin of
          None \<Rightarrow> emit (GpioSetupIn in_pin) w
        | Some out \<Rightarrow> gpio_output out LOW (emit (GpioSetupOut out) (emit (GpioSetupIn in_pin) w)))"

text \<open>The lambda of line 145, called on a falling edge of the shutdown pin.\<close>

definition shutdown_callback :: "world \<Rightarrow> py_error option \<times> world" where
  "shutdown_callback w =
     (case resolve_global ''call'' of
        Some e \<Rightarrow> (Some e, w)
      | None \<Rightarrow> (None, emit (Subprocess [''shutdown'', ''-h'', ''now'']) w))"

text \<open>\<^verbatim>\<open>if self.shutdown_pin:\<close> is false for \<^verbatim>\<open>None\<close> and for pin 0.\<close>

definition truthy :: "int option \<Rightarrow> bool" where
  "truthy p = (case p of None \<Rightarrow> False | Some n \<Rightarrow> n \<noteq> 0)"

text \<open>Lines 155 to 157.\<close>

fun add_event_detects :: "int list \<Rightarrow> world \<Rightarrow> world" where
  "add_event_detects [] w = w"
| "add_event_detects (pin # rest) w =
     add_event_detects rest (emit (GpioAddEventDetect pin SwitchVid GPIO_BOUNCE_TIME) w)"

text \<open>Lines 148 to 153.\<close>

definition do_autostart :: "looper \<Rightarrow> world \<Rightarrow> py_error option \<times> looper \<times> world" where
  "do_autostart l w =
     (if autostart l then
        (case splash l of
           Some img \<Rightarrow>
             (case resolve_global ''Popen'' of
                Some e \<Rightarrow> (Some e, l, w)
              | None \<Rightarrow>
                  (None, l\<lparr>splashproc := Some [''fbi'', ''--noverbose'', ''-a'', img]\<rparr>,
                   emit (Subprocess [''fbi'', ''--noverbose'', ''-a'', img]) w))
         | None \<Rightarrow>
             (case in_pins l of
                [] \<Rightarrow> (Some IndexError, l, w)
              | pin # _ \<Rightarrow> switch_vid pin l w))
      else (None, l, w))"

text \<open>
  Lines 130 to 157: everything \<^verbatim>\<open>start\<close> does before it enters the idle loop. An
  exception leaves \<^verbatim>\<open>start\<close> at once, so the input callbacks are registered only when
  none was raised.
\<close>

definition start_setup :: "looper \<Rightarrow> world \<Rightarrow> py_error option \<times> looper \<times> world" where
  "start_setup l w =
     (let w1 = (if \<not> debug l then emit (OsSystem ''tput civis'') (emit (OsSystem ''clear'') w) else w);
          w2 = setup_pins (gpio_pins l) (emit GpioSetmodeBCM w1);
          w3 = (if truthy (shutdown_pin l)
                then emit (GpioAddEventDetect (the (shutdown_pin l)) ShutdownLambda GPIO_BOUNCE_TIME)
                       (emit (GpioSetupIn (the (shutdown_pin l))) w2)
                else w2)
      in case do_autostart l w3 of
           (Some e, l', w4) \<Rightarrow> (Some e, l', w4)
         | (None, l', w4) \<Rightarrow> (None, l', add_event_detects (in_pins l') w4))"

text \<open>Lines 164 to 166.\<close>

fun clear_outputs :: "int option list \<Rightarrow> world \<Rightarrow> world" where
  "clear_outputs [] w = w"
| "clear_outputs (out_pin # rest) w =
     clear_outputs rest (case out_pin of None \<Rightarrow> w | Some out \<Rightarrow> gpio_output out LOW w)"

text \<open>
  Lines 162 to 167: one iteration of the idle loop, after its sleep. The state the engine
  reports (\<^verbatim>\<open>self._player.get_state()\<close>) is an input of the iteration.
\<close>

definition poll_body :: "vlc_state \<Rightarrow> looper \<times> world \<Rightarrow> looper \<times> world" where
  "poll_body st s =
     (case s of (l, w) \<Rightarrow>
        if \<not> loop l then
          (if player l \<and> st = Ended
           then (l\<lparr>active_vid := None\<rparr>, clear_outputs (map snd (gpio_pins l)) w)
           else (l, w))
        else (l, w))"

text \<open>
  The idle loop never ends by itself. What happens during it is a sequence of events: an
  iteration of the loop with the state the engine reports, a falling edge on an input pin,
  a falling edge on the shutdown pin. An edge runs a callback only on a pin that has one
  registered; an exception raised by a callback ends that callback and leaves the state as
  it is at that moment.
\<close>

datatype event = Press int | Poll vlc_state | ShutdownEdge

fun step :: "event \<Rightarrow> looper \<times> world \<Rightarrow> looper \<times> world" where
  "step (Press pin) (l, w) =
     (if pin \<in> set (in_pins l) then snd (switch_vid pin l w) else (l, w))"
| "step (Poll st) (l, w) = poll_body st (l, w)"
| "step ShutdownEdge (l, w) =
     (if truthy (shutdown_pin l) then (l, snd (shutdown_callback w)) else (l, w))"

fun run :: "event list \<Rightarrow> looper \<times> world \<Rightarrow> looper \<times> world" where
  "run [] s = s"
| "run (e # es) s = run es (step e s)"

text \<open>
  \<^verbatim>\<open>start\<close> up to a finite number of events of its idle loop. The teardown of the
  \<^verbatim>\<open>finally\<close> clause (\<^verbatim>\<open>__del__\<close>) runs when the loop is interrupted and is not part
  of the model.
\<close>

definition start :: "event list \<Rightarrow> looper \<Rightarrow> world \<Rightarrow> py_error option \<times> looper \<times> world" where
  "start es l w =
     (case start_setup l w of
        (Some e, l', w') \<Rightarrow> (Some e, l', w')
      | (None, l', w') \<Rightarrow> (None, run es (l', w')))"

text \<open>\<^verbatim>\<open>VidLooper(**vars(args)).start()\<close>, line 251.\<close>

definition program :: "fs \<Rightarrow> args \<Rightarrow> event list \<Rightarrow> world \<Rightarrow> py_error option \<times> looper option \<times> world" where
  "program f a es w =
     (case init f a w of
        (Inl e, w') \<Rightarrow> (Some e, None, w')
      | (Inr l, w') \<Rightarrow> (case start es l w' of (e, l', w'') \<Rightarrow> (e, Some l', w'')))"

subsection \<open>Lamps\<close>

text \<open>
  The entries of a mapping that the loop of lines 105 to 108 visits after the entry of the
  given input pin.
\<close>

definition entries_after :: "int \<Rightarrow> pin_map \<Rightarrow> pin_map" where
  "entries_after pin pins = tl (dropWhile (\<lambda>(in_pin, out_pin). in_pin \<noteq> pin) pins)"

text \<open>At most one of the output pins of a mapping is at \<open>HIGH\<close>.\<close>

definition at_most_one_lit :: "pin_map \<Rightarrow> world \<Rightarrow> bool" where
  "at_most_one_lit pins w =
     (\<forall>a \<in> set (out_pins pins). \<forall>b \<in> set (out_pins pins).
        levels w a = Some HIGH \<and> levels w b = Some HIGH \<longrightarrow> a = b)"

subsection \<open>Concrete configurations\<close>

text \<open>Two buttons, the first with a lamp, and two videos.\<close>

definition example_looper :: looper where
  "example_looper =
     \<lparr>gpio_pins = [(17, Some 27), (22, None)], shutdown_pin = None,
      videos = [''A.mp4'', ''B.mp4''], debug = False, audio = ''hdmi'', autostart = True,
      restart_on_press = False, loop = True, no_osd = False, splash = None,
      splashproc = None, active_vid = None, player = True\<rparr>"

text \<open>
  The command line \<^verbatim>\<open>vidlooper A.mp4 missing.mp4\<close>, and a file system in which
  \<^verbatim>\<open>missing.mp4\<close> does not exist.
\<close>

definition example_args :: args where
  "example_args =
     \<lparr>arg_audio = ''hdmi'', arg_autostart = True, arg_restart_on_press = False,
      arg_video_dir = ''/videos'', arg_videos = [''A.mp4'', ''missing.mp4''],
      arg_gpio_pins = None, arg_loop = True, arg_no_osd = False, arg_shutdown_pin = None,
      arg_splash = None, arg_debug = False\<rparr>"

definition example_fs :: fs where
  "example_fs = \<lparr>paths = [''A.mp4'', ''B.mp4'', ''/videos''], dirs = [(''/videos'', [])]\<rparr>"

text \<open>Two buttons that share one lamp.\<close>

definition shared_looper :: looper where
  "shared_looper =
     \<lparr>gpio_pins = [(17, Some 27), (22, Some 27)], shutdown_pin = None,
      videos = [''A.mp4'', ''B.mp4''], debug = False, audio = ''hdmi'', autostart = True,
      restart_on_press = False, loop = True, no_osd = False, splash = None,
      splashproc = None, active_vid = None, player = True\<rparr>"

text \<open>Two buttons that share one lamp and play the same video.\<close>

definition twin_looper :: looper where
  "twin_looper =
     \<lparr>gpio_pins = [(17, Some 27), (22, Some 27)], shutdown_pin = None,
      videos = [''A.mp4'', ''A.mp4''], debug = False, audio = ''hdmi'', autostart = True,
      restart_on_press = False, loop = True, no_osd = False, splash = None,
      splashproc = None, active_vid = None, player = True\<rparr>"

text \<open>\<^verbatim>\<open>vidlooper --no-loop A.mp4 B.mp4\<close>, with both files present.\<close>

definition noloop_args :: args where
  "noloop_args =
     \<lparr>arg_audio = ''hdmi'', arg_autostart = True, arg_restart_on_press = False,
      arg_video_dir = ''/videos'', arg_videos = [''A.mp4'', ''B.mp4''],
      arg_gpio_pins = None, arg_loop = False, arg_no_osd = False, arg_shutdown_pin = None,
      arg_splash = None, arg_debug = False\<rparr>"

section \<open>Properties\<close>

subsection \<open>Levels and traces\<close>

lemma levels_emit [simp]: "levels (emit e w) = levels w"
  by (simp add: emit_def)

lemma trace_emit [simp]: "trace (emit e w) = trace w @ [e]"
  by (simp add: emit_def)

lemma levels_gpio_output [simp]: "levels (gpio_output pin v w) = (levels w)(pin \<mapsto> v)"
  by (simp add: gpio_output_def)

lemma trace_gpio_output [simp]: "trace (gpio_output pin v w) = trace w @ [GpioOutput pin v]"
  by (simp add: gpio_output_def)

text \<open>No operation removes an entry from the trace.\<close>

lemma trace_write_outputs: "set (trace w) \<subseteq> set (trace (write_outputs pin pins w))"
proof (induction pins arbitrary: w)
  case Nil
  show ?case by simp
next
  case (Cons a pins)
  obtain i out where a: "a = (i, out)" by (cases a)
  show ?case
  proof (cases out)
    case None
    with a Cons.IH [of w] show ?thesis by simp
  next
    case (Some q)
    with a Cons.IH [of "gpio_output q (if i = pin then HIGH else LOW) w"] show ?thesis
      by auto
  qed
qed

lemma trace_kill_process: "set (trace w) \<subseteq> set (trace (kill_process l w))"
  by (auto simp: kill_process_def)

lemma trace_play_file: "set (trace w) \<subseteq> set (trace (snd (snd (play_file filename l w))))"
  using trace_kill_process [of "emit (Print filename) w" l]
  by (auto simp: play_file_def Let_def)

lemma trace_switch_vid: "set (trace w) \<subseteq> set (trace (snd (snd (switch_vid pin l w))))"
  using trace_write_outputs [of w pin "gpio_pins l"]
    trace_play_file [of "write_outputs pin (gpio_pins l) w"]
  by (auto simp: switch_vid_def Let_def split: option.splits)

lemma trace_do_autostart: "set (trace w) \<subseteq> set (trace (snd (snd (do_autostart l w))))"
  using trace_switch_vid [of w _ l]
  by (auto simp: do_autostart_def split: option.splits list.splits)

lemma trace_add_event_detects: "set (trace w) \<subseteq> set (trace (add_event_detects ps w))"
  by (induction ps arbitrary: w) (auto, force)

lemma trace_start_setup_tail:
  "set (trace w3) \<subseteq> set (trace (snd (snd (case do_autostart l w3 of
           (Some e, l', w4) \<Rightarrow> (Some e, l', w4)
         | (None, l', w4) \<Rightarrow> (None, l', add_event_detects (in_pins l') w4)))))"
proof (cases "do_autostart l w3")
  case (fields e l' w4)
  have "set (trace w3) \<subseteq> set (trace w4)"
    using trace_do_autostart [of w3 l] fields by simp
  moreover have "set (trace w4) \<subseteq> set (trace (add_event_detects (in_pins l') w4))"
    by (rule trace_add_event_detects)
  ultimately show ?thesis
    using fields by (cases e) auto
qed

lemma shutdown_registered:
  assumes "truthy (shutdown_pin l)"
  shows "GpioAddEventDetect (the (shutdown_pin l)) ShutdownLambda GPIO_BOUNCE_TIME
           \<in> set (trace (snd (snd (start_setup l w))))"
  using assms trace_start_setup_tail
  unfolding start_setup_def Let_def
  by (simp add: subset_iff)

subsection \<open>The pin parser\<close>

text \<open>The parser returns a mapping without repeated input pins, as a dict is.\<close>

lemma parse_pairs_distinct:
  "parse_pairs ps d = Inr d' \<Longrightarrow> distinct (map fst d) \<Longrightarrow> distinct (map fst d')"
proof (induction ps arbitrary: d)
  case Nil
  then show ?case by simp
next
  case (Cons pair ps)
  from Cons.prems show ?case
    by (auto simp: Let_def split: list.splits option.splits sum.splits if_splits
        intro: Cons.IH)
qed

lemma gpio_parser_call_distinct:
  "gpio_parser_call values = Inr d \<Longrightarrow> distinct (map fst d)"
  using parse_pairs_distinct [of "split_on CHR '','' values" "[]" d]
  by (simp add: gpio_parser_call_def)

text \<open>
  Claim C3. A pin-mapping string with an entry of more than two colon-separated fields
  should be rejected as malformed. The guard of line 24, \<^verbatim>\<open>0 == len(pair_split) > 2\<close>, is a
  chained comparison that no list satisfies, so the entry \<^verbatim>\<open>17:27:5\<close> is accepted and its
  third field is dropped: the parser returns the mapping from 17 to 27.
\<close>

theorem parser_accepts_three_fields:
  "gpio_parser_call ''17:27:5'' = Inr [(17, Some 27)]"
  by (simp add: gpio_parser_call_def py_int_def strip_def is_space_def is_digit_def digit_val_def)

subsection \<open>Names that are not bound\<close>

text \<open>
  Claim C4. With a shutdown pin configured, \<^verbatim>\<open>start\<close> registers the lambda of line 145 as
  the falling-edge callback of that pin, with the debounce time of 200 ms. Calling the
  lambda should run \<^verbatim>\<open>shutdown -h now\<close>. The name \<^verbatim>\<open>call\<close> is bound nowhere in the
  module, so in every world the call raises \<^verbatim>\<open>NameError\<close> and starts no process.
\<close>

theorem shutdown_callback_name_error:
  "truthy (shutdown_pin l) \<Longrightarrow>
     GpioAddEventDetect (the (shutdown_pin l)) ShutdownLambda GPIO_BOUNCE_TIME
       \<in> set (trace (snd (snd (start_setup l w))))
     \<and> shutdown_callback w' = (Some (NameError ''call''), w')"
  by (simp add: shutdown_registered shutdown_callback_def resolve_global_def module_globals_def)

theorem shutdown_callback_name_error_witness:
  "truthy (shutdown_pin (example_looper\<lparr>shutdown_pin := Some 3\<rparr>))
   \<and> GpioAddEventDetect 3 ShutdownLambda GPIO_BOUNCE_TIME
       \<in> set (trace (snd (snd (start_setup (example_looper\<lparr>shutdown_pin := Some 3\<rparr>) world0))))
   \<and> shutdown_callback world0 = (Some (NameError ''call''), world0)"
  using shutdown_callback_name_error [of "example_looper\<lparr>shutdown_pin := Some 3\<rparr>" world0 world0]
  by (simp add: truthy_def)

text \<open>
  Claim C5. With autostart enabled and a splash image configured, \<^verbatim>\<open>start\<close> should launch
  the image viewer and record its handle. The name \<^verbatim>\<open>Popen\<close> is bound nowhere in the
  module: \<^verbatim>\<open>start\<close> raises \<^verbatim>\<open>NameError\<close> and the object is left as it was, with no
  handle recorded. Without a splash image, autostart is \<^verbatim>\<open>switch_vid\<close> on the first
  input pin, as the claim says.
\<close>

theorem splash_popen_name_error:
  "autostart l \<Longrightarrow>
     (splash l = Some img \<longrightarrow>
        fst (start_setup l w) = Some (NameError ''Popen'')
        \<and> fst (snd (start_setup l w)) = l
        \<and> do_autostart l w' = (Some (NameError ''Popen''), l, w'))
     \<and> (splash l = None \<and> in_pins l = pin # pins \<longrightarrow> do_autostart l w' = switch_vid pin l w')"
  by (simp add: start_setup_def do_autostart_def resolve_global_def module_globals_def Let_def)

theorem splash_popen_name_error_witness:
  "autostart (example_looper\<lparr>splash := Some ''logo.png''\<rparr>)
   \<and> splash (example_looper\<lparr>splash := Some ''logo.png''\<rparr>) = Some ''logo.png''
   \<and> fst (start_setup (example_looper\<lparr>splash := Some ''logo.png''\<rparr>) world0) = Some (NameError ''Popen'')
   \<and> fst (snd (start_setup (example_looper\<lparr>splash := Some ''logo.png''\<rparr>) world0))
       = example_looper\<lparr>splash := Some ''logo.png''\<rparr>
   \<and> splash example_looper = None \<and> in_pins example_looper = [17, 22]
   \<and> do_autostart example_looper world0 = switch_vid 17 example_looper world0"
  using splash_popen_name_error [of "example_looper\<lparr>splash := Some ''logo.png''\<rparr>" "''logo.png''" world0 world0 17 "[22]"]
    splash_popen_name_error [of example_looper "''logo.png''" world0 world0 17 "[22]"]
  by (simp add: example_looper_def in_pins_def)

subsection \<open>Construction\<close>

lemma check_videos_missing:
  assumes "\<exists>v \<in> set (arg_videos a). \<not> path_exists f v"
  shows "\<exists>v \<in> set (arg_videos a). \<not> path_exists f v
           \<and> check_videos f a (arg_videos a) = Some (FileNotFoundError v)"
proof -
  from assms have ne: "arg_videos a \<noteq> []" by auto
  from assms obtain v where v: "find (\<lambda>video. \<not> path_exists f video) (arg_videos a) = Some v"
    by (cases "find (\<lambda>video. \<not> path_exists f video) (arg_videos a)") (auto simp: find_None_iff)
  then have "v \<in> set (arg_videos a)" "\<not> path_exists f v"
    by (auto simp: find_Some_iff)
  with v ne show ?thesis
    by (auto simp: check_videos_def)
qed

lemma check_videos_ok:
  assumes "self_videos f a = Inr vs" "vs \<noteq> []" "\<forall>v \<in> set vs. path_exists f v"
  shows "check_videos f a vs = None"
proof (cases "arg_videos a = []")
  case True
  with assms(2) show ?thesis by (simp add: check_videos_def)
next
  case False
  from assms(3) have "find (\<lambda>video. \<not> path_exists f video) vs = None"
    by (simp add: find_None_iff)
  with False show ?thesis by (simp add: check_videos_def)
qed

text \<open>
  Claim C6. The videos of a configuration are the list assigned to \<^verbatim>\<open>self.videos\<close>: the
  explicit list, or the result of the directory scan. The list is not empty: a
  configuration without any video is rejected on its own by lines 78 to 80, whatever the
  pins are. For every configuration whose videos all exist, construction succeeds if and
  only if the number of videos is at most the number of configured input pins; with more
  videos than pins it fails with the \<^verbatim>\<open>AssertionError\<close> of line 82, before the playback
  engine is touched.
\<close>

theorem init_enough_pins:
  assumes "self_videos f a = Inr vs" and "vs \<noteq> []" and "\<forall>v \<in> set vs. path_exists f v"
  shows "(constructed (init f a w) \<longleftrightarrow> length vs \<le> length (pins_of a))
         \<and> (length (pins_of a) < length vs \<longrightarrow>
              init f a w = (Inl (AssertionError ''Not enough GPIO pins configured for number of videos''), w))"
  using assms(1) check_videos_ok [OF assms]
  by (simp add: init_def constructed_def Let_def)

theorem init_enough_pins_witness:
  "self_videos example_fs noloop_args = Inr [''A.mp4'', ''B.mp4'']
   \<and> path_exists example_fs ''A.mp4'' \<and> path_exists example_fs ''B.mp4''
   \<and> length [''A.mp4'', ''B.mp4''] \<le> length (pins_of noloop_args)
   \<and> constructed (init example_fs noloop_args world0)
   \<and> self_videos example_fs (noloop_args\<lparr>arg_gpio_pins := Some [(17, Some 27)]\<rparr>) = Inr [''A.mp4'', ''B.mp4'']
   \<and> length (pins_of (noloop_args\<lparr>arg_gpio_pins := Some [(17, Some 27)]\<rparr>)) < length [''A.mp4'', ''B.mp4'']
   \<and> \<not> constructed (init example_fs (noloop_args\<lparr>arg_gpio_pins := Some [(17, Some 27)]\<rparr>) world0)
   \<and> init example_fs (noloop_args\<lparr>arg_gpio_pins := Some [(17, Some 27)]\<rparr>) world0
       = (Inl (AssertionError ''Not enough GPIO pins configured for number of videos''), world0)"
proof -
  let ?a = "noloop_args\<lparr>arg_gpio_pins := Some [(17, Some 27)]\<rparr>"
  have v: "self_videos example_fs noloop_args = Inr [''A.mp4'', ''B.mp4'']"
    by (simp add: self_videos_def noloop_args_def)
  have v': "self_videos example_fs ?a = Inr [''A.mp4'', ''B.mp4'']"
    by (simp add: self_videos_def noloop_args_def)
  have ne: "[''A.mp4'', ''B.mp4''] \<noteq> []" by simp
  have ex: "\<forall>v \<in> set [''A.mp4'', ''B.mp4'']. path_exists example_fs v"
    by (simp add: path_exists_def example_fs_def)
  have le: "length [''A.mp4'', ''B.mp4''] \<le> length (pins_of noloop_args)"
    by (simp add: pins_of_def noloop_args_def GPIO_PIN_DEFAULT_def)
  have gt: "length (pins_of ?a) < length [''A.mp4'', ''B.mp4'']"
    by (simp add: pins_of_def)
  from init_enough_pins [OF v ne ex, of world0] init_enough_pins [OF v' ne ex, of world0]
    v v' ex le gt
  show ?thesis
    by (simp add: constructed_def)
qed

text \<open>The empty scan: no video at all is an error of its own, with any pins.\<close>

lemma init_no_videos:
  "self_videos f a = Inr [] \<Longrightarrow> init f a w = (Inl (NoVideosFound (arg_video_dir a)), w)"
  by (auto simp: init_def self_videos_def check_videos_def Let_def split: if_splits)

text \<open>
  Claim C7. For every explicit video list with at least one path that does not exist,
  construction raises \<^verbatim>\<open>FileNotFoundError\<close> for such a path and leaves the world as it
  was: no engine instance or media player has been created and no pin configured.
\<close>

theorem init_missing_video:
  assumes "\<exists>v \<in> set (arg_videos a). \<not> path_exists f v"
  shows "\<exists>v \<in> set (arg_videos a). \<not> path_exists f v
           \<and> init f a w = (Inl (FileNotFoundError v), w)"
proof -
  from assms have ne: "arg_videos a \<noteq> []" by auto
  from check_videos_missing [OF assms] obtain v where
    v: "v \<in> set (arg_videos a)" "\<not> path_exists f v"
       "check_videos f a (arg_videos a) = Some (FileNotFoundError v)"
    by blast
  from ne v(3) have "init f a w = (Inl (FileNotFoundError v), w)"
    by (simp add: init_def self_videos_def Let_def)
  with v show ?thesis by blast
qed

theorem init_missing_video_witness:
  "''missing.mp4'' \<in> set (arg_videos example_args) \<and> \<not> path_exists example_fs ''missing.mp4''
   \<and> init example_fs example_args world0 = (Inl (FileNotFoundError ''missing.mp4''), world0)
   \<and> trace world0 = []"
proof -
  have m: "\<exists>v \<in> set (arg_videos example_args). \<not> path_exists example_fs v"
    by (simp add: example_args_def example_fs_def path_exists_def)
  from init_missing_video [OF m, of world0] show ?thesis
    by (auto simp: example_args_def example_fs_def path_exists_def world0_def)
qed

subsection \<open>Switching\<close>

text \<open>
  Claim C9. Let \<open>idx\<close> be the position of a registered input pin in the pin mapping.
  \<^verbatim>\<open>switch_vid\<close> on that pin raises \<^verbatim>\<open>IndexError\<close> exactly when \<open>idx\<close> is at least the
  number of videos, which construction permits whenever there are fewer videos than pins;
  the error is raised after the loop over the output pins has run, and the object is
  unchanged.
\<close>

theorem switch_vid_index_error:
  "index_of (in_pins l) pin = Some idx \<Longrightarrow>
     (fst (switch_vid pin l w) = Some IndexError) = (length (videos l) \<le> idx)
     \<and> (length (videos l) \<le> idx \<longrightarrow>
          switch_vid pin l w = (Some IndexError, l, write_outputs pin (gpio_pins l) w))"
  by (auto simp: switch_vid_def play_file_def Let_def)

theorem switch_vid_index_error_witness:
  "index_of (in_pins (example_looper\<lparr>videos := [''A.mp4'']\<rparr>)) 22 = Some 1
   \<and> length (videos (example_looper\<lparr>videos := [''A.mp4'']\<rparr>)) < length (gpio_pins (example_looper\<lparr>videos := [''A.mp4'']\<rparr>))
   \<and> fst (switch_vid 22 (example_looper\<lparr>videos := [''A.mp4'']\<rparr>) world0) = Some IndexError
   \<and> switch_vid 22 (example_looper\<lparr>videos := [''A.mp4'']\<rparr>) world0
       = (Some IndexError, example_looper\<lparr>videos := [''A.mp4'']\<rparr>,
          write_outputs 22 (gpio_pins (example_looper\<lparr>videos := [''A.mp4'']\<rparr>)) world0)
   \<and> levels (write_outputs 22 (gpio_pins (example_looper\<lparr>videos := [''A.mp4'']\<rparr>)) world0) 27 = Some LOW"
  using switch_vid_index_error [of "example_looper\<lparr>videos := [''A.mp4'']\<rparr>" 22 1 world0]
  by (simp add: example_looper_def in_pins_def)

subsection \<open>What the loop over the output pins does\<close>

lemma out_pins_simps [simp]:
  "out_pins [] = []"
  "out_pins ((i, None) # rest) = out_pins rest"
  "out_pins ((i, Some q) # rest) = q # out_pins rest"
  by (simp_all add: out_pins_def)

lemma out_pins_iff: "q \<in> set (out_pins pins) \<longleftrightarrow> (\<exists>i. (i, Some q) \<in> set pins)"
  by (induction pins) (auto simp: out_pins_def split: option.splits)

lemma levels_write_outputs_other:
  "q \<notin> set (out_pins pins) \<Longrightarrow> levels (write_outputs pin pins w) q = levels w q"
proof (induction pins arbitrary: w)
  case Nil
  show ?case by simp
next
  case (Cons a pins)
  obtain i out where a: "a = (i, out)" by (cases a)
  from Cons.prems a have "q \<notin> set (out_pins pins)"
    by (cases out) auto
  from Cons.IH [OF this] Cons.prems a show ?case
    by (cases out) auto
qed

lemma levels_write_outputs_high:
  "q \<in> set (out_pins pins) \<Longrightarrow> levels (write_outputs pin pins w) q = Some HIGH
     \<Longrightarrow> (pin, Some q) \<in> set pins"
proof (induction pins arbitrary: w)
  case Nil
  then show ?case by simp
next
  case (Cons a pins)
  obtain i out where a: "a = (i, out)" by (cases a)
  show ?case
  proof (cases "q \<in> set (out_pins pins)")
    case True
    from Cons.IH [OF True] Cons.prems(2) a show ?thesis
      by (cases out) auto
  next
    case False
    with Cons.prems(1) a have out: "out = Some q"
      by (cases out) auto
    from levels_write_outputs_other [OF False] Cons.prems(2) a out
    have "i = pin" by (auto split: if_splits)
    with a out show ?thesis by simp
  qed
qed

lemma levels_write_outputs_distinct:
  "distinct (out_pins pins) \<Longrightarrow> (i, Some q) \<in> set pins
     \<Longrightarrow> levels (write_outputs pin pins w) q = Some (if i = pin then HIGH else LOW)"
proof (induction pins arbitrary: w)
  case Nil
  then show ?case by simp
next
  case (Cons a pins)
  obtain j out where a: "a = (j, out)" by (cases a)
  from Cons.prems(1) a have d: "distinct (out_pins pins)"
    by (cases out) auto
  show ?case
  proof (cases "(i, Some q) \<in> set pins")
    case True
    from Cons.IH [OF d True] a show ?thesis
      by (cases out) auto
  next
    case False
    with Cons.prems(2) a have ji: "j = i" and out: "out = Some q" by auto
    from Cons.prems(1) a out have "q \<notin> set (out_pins pins)" by simp
    from levels_write_outputs_other [OF this] a ji out show ?thesis
      by simp
  qed
qed

lemma player_cmds_emit [simp]:
  "player_cmds (emit e w) = (if is_player_cmd e then player_cmds w @ [e] else player_cmds w)"
  by (simp add: player_cmds_def)

lemma player_cmds_gpio_output [simp]: "player_cmds (gpio_output pin v w) = player_cmds w"
  by (simp add: player_cmds_def)

lemma player_cmds_write_outputs: "player_cmds (write_outputs pin pins w) = player_cmds w"
proof (induction pins arbitrary: w)
  case Nil
  show ?case by simp
next
  case (Cons a pins)
  obtain j out where a: "a = (j, out)" by (cases a)
  with Cons.IH show ?case by (cases out) auto
qed

lemma write_outputs_append:
  "write_outputs pin (xs @ ys) w = write_outputs pin ys (write_outputs pin xs w)"
proof (induction xs arbitrary: w)
  case Nil
  show ?case by simp
next
  case (Cons a xs)
  obtain i out where a: "a = (i, out)" by (cases a)
  with Cons.IH show ?case by simp
qed

lemma levels_write_outputs_last:
  assumes "pins = ys @ (i, Some q) # zs" and "q \<notin> set (out_pins zs)"
  shows "levels (write_outputs pin pins w) q = Some (if i = pin then HIGH else LOW)"
proof -
  let ?w = "gpio_output q (if i = pin then HIGH else LOW) (write_outputs pin ys w)"
  have "write_outputs pin pins w = write_outputs pin zs ?w"
    using assms(1) by (simp add: write_outputs_append)
  with levels_write_outputs_other [OF assms(2), of pin ?w] show ?thesis by simp
qed

lemma out_pins_append [simp]: "out_pins (xs @ ys) = out_pins xs @ out_pins ys"
  by (simp add: out_pins_def)

lemma last_entry_of_output:
  "q \<in> set (out_pins pins) \<Longrightarrow>
     \<exists>ys i zs. pins = ys @ (i, Some q) # zs \<and> q \<notin> set (out_pins zs)"
proof (induction pins)
  case Nil
  then show ?case by simp
next
  case (Cons a pins)
  show ?case
  proof (cases "q \<in> set (out_pins pins)")
    case True
    from Cons.IH [OF True] obtain ys i zs
      where "pins = ys @ (i, Some q) # zs" "q \<notin> set (out_pins zs)" by blast
    then have "a # pins = (a # ys) @ (i, Some q) # zs \<and> q \<notin> set (out_pins zs)" by simp
    then show ?thesis by blast
  next
    case False
    obtain i out where a: "a = (i, out)" by (cases a)
    from Cons.prems False a have "out = Some q" by (cases out) auto
    with a False have "a # pins = [] @ (i, Some q) # pins \<and> q \<notin> set (out_pins pins)" by simp
    then show ?thesis by blast
  qed
qed

lemma entries_after_split:
  assumes "distinct (map fst (ys @ (pin, out) # zs))"
  shows "entries_after pin (ys @ (pin, out) # zs) = zs"
proof -
  from assms have "\<And>x. x \<in> set ys \<Longrightarrow> (case x of (in_pin, out_pin) \<Rightarrow> in_pin \<noteq> pin)"
    by (auto simp: image_iff)
  then have "dropWhile (\<lambda>(in_pin, out_pin). in_pin \<noteq> pin) (ys @ (pin, out) # zs)
             = dropWhile (\<lambda>(in_pin, out_pin). in_pin \<noteq> pin) ((pin, out) # zs)"
    by (rule dropWhile_append2)
  then show ?thesis by (simp add: entries_after_def)
qed

lemma levels_write_outputs_reflect:
  assumes d: "distinct (map fst pins)"
    and lv: "\<forall>q \<in> set (out_pins pins).
               levels w q = Some (if (pin, Some q) \<in> set pins then HIGH else LOW)"
    and later: "\<forall>q. (pin, Some q) \<in> set pins \<longrightarrow> q \<notin> set (out_pins (entries_after pin pins))"
  shows "levels (write_outputs pin pins w) = levels w"
proof
  fix q
  show "levels (write_outputs pin pins w) q = levels w q"
  proof (cases "q \<in> set (out_pins pins)")
    case False
    then show ?thesis by (rule levels_write_outputs_other)
  next
    case True
    from last_entry_of_output [OF True] obtain ys i zs
      where sp: "pins = ys @ (i, Some q) # zs" and nz: "q \<notin> set (out_pins zs)" by blast
    have final: "levels (write_outputs pin pins w) q = Some (if i = pin then HIGH else LOW)"
      using sp nz by (rule levels_write_outputs_last)
    have "(pin, Some q) \<in> set pins \<longleftrightarrow> i = pin"
    proof
      assume "i = pin"
      with sp show "(pin, Some q) \<in> set pins" by simp
    next
      assume m: "(pin, Some q) \<in> set pins"
      show "i = pin"
      proof (rule ccontr)
        assume ne: "i \<noteq> pin"
        from nz have "(pin, Some q) \<notin> set zs" by (auto simp: out_pins_iff)
        with m sp ne have "(pin, Some q) \<in> set ys" by auto
        then obtain ys1 ys2 where y: "ys = ys1 @ (pin, Some q) # ys2"
          by (auto simp: in_set_conv_decomp)
        with sp have sp2: "pins = ys1 @ (pin, Some q) # (ys2 @ (i, Some q) # zs)" by simp
        with d have "entries_after pin pins = ys2 @ (i, Some q) # zs"
          using entries_after_split [of ys1 pin "Some q" "ys2 @ (i, Some q) # zs"] by simp
        then have "q \<in> set (out_pins (entries_after pin pins))" by simp
        with later m show False by blast
      qed
    qed
    with final lv True show ?thesis by simp
  qed
qed

text \<open>
  Claim C1, as amended. Let the pressed pin be registered, let its video be the active one
  and let restart-on-press be off. Let the output pins reflect a press of that pin: its own
  output pin, if it has one, is at \<open>HIGH\<close> and every other configured output pin is at
  \<open>LOW\<close>. Let no input pin later in the mapping have the same output pin as the pressed
  pin. Then \<^verbatim>\<open>switch_vid\<close> returns normally, leaves the object as it was (the active
  video with it), sends nothing to the playback engine, and every pin keeps its level.
\<close>

theorem switch_vid_active_noop:
  assumes "distinct (map fst (gpio_pins l))"
    and "index_of (in_pins l) pin = Some idx"
    and "idx < length (videos l)"
    and "active_vid l = Some (videos l ! idx)"
    and "\<not> restart_on_press l"
    and "\<forall>q \<in> set (out_pins (gpio_pins l)).
           levels w q = Some (if (pin, Some q) \<in> set (gpio_pins l) then HIGH else LOW)"
    and "\<forall>q. (pin, Some q) \<in> set (gpio_pins l) \<longrightarrow>
           q \<notin> set (out_pins (entries_after pin (gpio_pins l)))"
  shows "fst (switch_vid pin l w) = None
         \<and> fst (snd (switch_vid pin l w)) = l
         \<and> player_cmds (snd (snd (switch_vid pin l w))) = player_cmds w
         \<and> levels (snd (snd (switch_vid pin l w))) = levels w"
proof -
  have sv: "switch_vid pin l w = (None, l, write_outputs pin (gpio_pins l) w)"
    using assms(2-5) by (simp add: switch_vid_def Let_def)
  have "levels (write_outputs pin (gpio_pins l) w) = levels w"
    using assms(1,6,7) by (rule levels_write_outputs_reflect)
  with sv show ?thesis
    by (simp add: player_cmds_write_outputs)
qed

theorem switch_vid_active_noop_witness:
  "distinct (map fst (gpio_pins (example_looper\<lparr>active_vid := Some ''A.mp4''\<rparr>)))
   \<and> index_of (in_pins (example_looper\<lparr>active_vid := Some ''A.mp4''\<rparr>)) 17 = Some 0
   \<and> active_vid (example_looper\<lparr>active_vid := Some ''A.mp4''\<rparr>)
       = Some (videos (example_looper\<lparr>active_vid := Some ''A.mp4''\<rparr>) ! 0)
   \<and> \<not> restart_on_press (example_looper\<lparr>active_vid := Some ''A.mp4''\<rparr>)
   \<and> out_pins (gpio_pins (example_looper\<lparr>active_vid := Some ''A.mp4''\<rparr>)) = [27]
   \<and> levels (gpio_output 27 HIGH world0) 27 = Some HIGH
   \<and> out_pins (entries_after 17 (gpio_pins (example_looper\<lparr>active_vid := Some ''A.mp4''\<rparr>))) = []
   \<and> fst (switch_vid 17 (example_looper\<lparr>active_vid := Some ''A.mp4''\<rparr>) (gpio_output 27 HIGH world0)) = None
   \<and> fst (snd (switch_vid 17 (example_looper\<lparr>active_vid := Some ''A.mp4''\<rparr>) (gpio_output 27 HIGH world0)))
       = example_looper\<lparr>active_vid := Some ''A.mp4''\<rparr>
   \<and> player_cmds (snd (snd (switch_vid 17 (example_looper\<lparr>active_vid := Some ''A.mp4''\<rparr>) (gpio_output 27 HIGH world0))))
       = player_cmds (gpio_output 27 HIGH world0)
   \<and> levels (snd (snd (switch_vid 17 (example_looper\<lparr>active_vid := Some ''A.mp4''\<rparr>) (gpio_output 27 HIGH world0))))
       = levels (gpio_output 27 HIGH world0)"
proof -
  let ?l = "example_looper\<lparr>active_vid := Some ''A.mp4''\<rparr>"
  let ?w = "gpio_output 27 HIGH world0"
  have h0: "distinct (map fst (gpio_pins ?l))"
    by (simp add: example_looper_def)
  have h1: "index_of (in_pins ?l) 17 = Some 0"
    by (simp add: example_looper_def in_pins_def)
  have h2: "0 < length (videos ?l)"
    by (simp add: example_looper_def)
  have h3: "active_vid ?l = Some (videos ?l ! 0)"
    by (simp add: example_looper_def)
  have h4: "\<not> restart_on_press ?l"
    by (simp add: example_looper_def)
  have o: "out_pins (gpio_pins ?l) = [27]"
    by (simp add: example_looper_def)
  have h5: "\<forall>q \<in> set (out_pins (gpio_pins ?l)).
              levels ?w q = Some (if (17, Some q) \<in> set (gpio_pins ?l) then HIGH else LOW)"
    by (simp add: example_looper_def)
  have a: "out_pins (entries_after 17 (gpio_pins ?l)) = []"
    by (simp add: example_looper_def entries_after_def)
  then have h6: "\<forall>q. (17, Some q) \<in> set (gpio_pins ?l) \<longrightarrow>
              q \<notin> set (out_pins (entries_after 17 (gpio_pins ?l)))"
    by simp
  from switch_vid_active_noop [OF h0 h1 h2 h3 h4 h5 h6] h0 h1 h3 h4 o a show ?thesis
    by simp
qed

text \<open>
  The claim as stated fails when a later input pin shares the output pin of the pressed
  one. With the mapping 17:27,22:27 and the same video on both buttons, \<^verbatim>\<open>start\<close>
  followed by a press of pin 22 leaves that video active and pin 27, the only output pin,
  at \<open>HIGH\<close>. A press of pin 17, whose video is the active one, then writes pin 27
  \<open>HIGH\<close> and, for the entry of pin 22, \<open>LOW\<close> again: the level has changed.
\<close>

theorem twin_lamp_counterexample:
  "index_of (in_pins (fst (run [Press 22] (snd (start_setup twin_looper world0))))) 17 = Some 0
   \<and> videos (fst (run [Press 22] (snd (start_setup twin_looper world0)))) ! 0 = ''A.mp4''
   \<and> active_vid (fst (run [Press 22] (snd (start_setup twin_looper world0)))) = Some ''A.mp4''
   \<and> \<not> restart_on_press (fst (run [Press 22] (snd (start_setup twin_looper world0))))
   \<and> out_pins (gpio_pins (fst (run [Press 22] (snd (start_setup twin_looper world0))))) = [27, 27]
   \<and> levels (snd (run [Press 22] (snd (start_setup twin_looper world0)))) 27 = Some HIGH
   \<and> levels (snd (snd (switch_vid 17
        (fst (run [Press 22] (snd (start_setup twin_looper world0))))
        (snd (run [Press 22] (snd (start_setup twin_looper world0))))))) 27 = Some LOW"
  by (simp add: twin_looper_def in_pins_def start_setup_def do_autostart_def switch_vid_def
      play_file_def kill_process_def truthy_def Let_def)

subsection \<open>Lamps in reachable states\<close>

lemma at_most_one_lit_levels:
  "levels w' = levels w \<Longrightarrow> at_most_one_lit pins w' = at_most_one_lit pins w"
  by (simp add: at_most_one_lit_def)

lemma at_most_one_lit_write:
  assumes "distinct (map fst pins)"
  shows "at_most_one_lit pins (write_outputs pin pins w)"
  unfolding at_most_one_lit_def
proof (intro ballI impI)
  fix a b
  assume a: "a \<in> set (out_pins pins)" and b: "b \<in> set (out_pins pins)"
    and hi: "levels (write_outputs pin pins w) a = Some HIGH
             \<and> levels (write_outputs pin pins w) b = Some HIGH"
  from levels_write_outputs_high [OF a] hi have "(pin, Some a) \<in> set pins" by blast
  moreover from levels_write_outputs_high [OF b] hi have "(pin, Some b) \<in> set pins" by blast
  ultimately have "Some a = Some b"
    using assms by (auto dest: eq_key_imp_eq_value)
  then show "a = b" by simp
qed

lemma levels_clear_keep:
  "levels w q = Some LOW \<Longrightarrow> levels (clear_outputs outs w) q = Some LOW"
proof (induction outs arbitrary: w)
  case Nil
  then show ?case by simp
next
  case (Cons a outs)
  show ?case
  proof (cases a)
    case None
    with Cons show ?thesis by simp
  next
    case (Some r)
    from Cons.prems have "levels (gpio_output r LOW w) q = Some LOW" by simp
    from Cons.IH [OF this] Some show ?thesis by simp
  qed
qed

lemma levels_clear_outputs:
  "Some q \<in> set outs \<Longrightarrow> levels (clear_outputs outs w) q = Some LOW"
proof (induction outs arbitrary: w)
  case Nil
  then show ?case by simp
next
  case (Cons a outs)
  show ?case
  proof (cases "a = Some q")
    case True
    have "levels (gpio_output q LOW w) q = Some LOW" by simp
    from levels_clear_keep [OF this] True show ?thesis by simp
  next
    case False
    with Cons.prems have "Some q \<in> set outs" by simp
    from Cons.IH [OF this] show ?thesis by (cases a) auto
  qed
qed

lemma levels_setup_keep:
  "levels w q = Some LOW \<Longrightarrow> levels (setup_pins pins w) q = Some LOW"
proof (induction pins arbitrary: w)
  case Nil
  then show ?case by simp
next
  case (Cons a pins)
  obtain i out where a: "a = (i, out)" by (cases a)
  show ?case
  proof (cases out)
    case None
    from Cons.prems have "levels (emit (GpioSetupIn i) w) q = Some LOW" by simp
    from Cons.IH [OF this] a None show ?thesis by simp
  next
    case (Some r)
    from Cons.prems
    have "levels (gpio_output r LOW (emit (GpioSetupOut r) (emit (GpioSetupIn i) w))) q = Some LOW"
      by simp
    from Cons.IH [OF this] a Some show ?thesis by simp
  qed
qed

lemma levels_setup_pins:
  "q \<in> set (out_pins pins) \<Longrightarrow> levels (setup_pins pins w) q = Some LOW"
proof (induction pins arbitrary: w)
  case Nil
  then show ?case by simp
next
  case (Cons a pins)
  obtain i out where a: "a = (i, out)" by (cases a)
  show ?case
  proof (cases "out = Some q")
    case True
    have "levels (gpio_output q LOW (emit (GpioSetupOut q) (emit (GpioSetupIn i) w))) q = Some LOW"
      by simp
    from levels_setup_keep [OF this] a True show ?thesis by simp
  next
    case False
    with Cons.prems a have "q \<in> set (out_pins pins)" by (cases out) auto
    from Cons.IH [OF this] a show ?thesis by simp
  qed
qed

lemma at_most_one_lit_dark:
  "(\<And>q. q \<in> set (out_pins pins) \<Longrightarrow> levels w q = Some LOW) \<Longrightarrow> at_most_one_lit pins w"
  by (simp add: at_most_one_lit_def)

lemma levels_kill_process [simp]: "levels (kill_process l w) = levels w"
  by (simp add: kill_process_def)

lemma play_file_frame:
  "levels (snd (snd (play_file filename l w))) = levels w
   \<and> gpio_pins (fst (snd (play_file filename l w))) = gpio_pins l
   \<and> player (fst (snd (play_file filename l w))) = player l
   \<and> loop (fst (snd (play_file filename l w))) = loop l"
  by (simp add: play_file_def Let_def)

lemma switch_vid_frame:
  "levels (snd (snd (switch_vid pin l w))) = levels (write_outputs pin (gpio_pins l) w)
   \<and> gpio_pins (fst (snd (switch_vid pin l w))) = gpio_pins l
   \<and> player (fst (snd (switch_vid pin l w))) = player l
   \<and> loop (fst (snd (switch_vid pin l w))) = loop l"
  using play_file_frame [of _ l "write_outputs pin (gpio_pins l) w"]
  by (simp add: switch_vid_def Let_def split: option.splits)

lemma levels_shutdown_callback [simp]: "levels (snd (shutdown_callback w)) = levels w"
  by (simp add: shutdown_callback_def split: option.splits)

lemma levels_add_event_detects [simp]: "levels (add_event_detects ps w) = levels w"
  by (induction ps arbitrary: w) auto

lemma do_autostart_frame:
  "gpio_pins (fst (snd (do_autostart l w))) = gpio_pins l
   \<and> player (fst (snd (do_autostart l w))) = player l
   \<and> loop (fst (snd (do_autostart l w))) = loop l
   \<and> (levels (snd (snd (do_autostart l w))) = levels w
      \<or> (\<exists>pin. levels (snd (snd (do_autostart l w))) = levels (write_outputs pin (gpio_pins l) w)))"
  using switch_vid_frame [of _ l w]
  by (auto simp: do_autostart_def split: option.splits list.splits)

lemma start_setup_frame:
  "gpio_pins (fst (snd (start_setup l w))) = gpio_pins l
   \<and> player (fst (snd (start_setup l w))) = player l
   \<and> loop (fst (snd (start_setup l w))) = loop l"
proof -
  let ?w3 = "(if truthy (shutdown_pin l)
       then emit (GpioAddEventDetect (the (shutdown_pin l)) ShutdownLambda GPIO_BOUNCE_TIME)
              (emit (GpioSetupIn (the (shutdown_pin l)))
                 (setup_pins (gpio_pins l) (emit GpioSetmodeBCM
                    (if \<not> debug l then emit (OsSystem ''tput civis'') (emit (OsSystem ''clear'') w) else w))))
       else setup_pins (gpio_pins l) (emit GpioSetmodeBCM
              (if \<not> debug l then emit (OsSystem ''tput civis'') (emit (OsSystem ''clear'') w) else w)))"
  obtain e l' w4 where d: "do_autostart l ?w3 = (e, l', w4)"
    by (cases "do_autostart l ?w3")
  from do_autostart_frame [of l ?w3] d
  have "gpio_pins l' = gpio_pins l \<and> player l' = player l \<and> loop l' = loop l" by simp
  with d show ?thesis
    by (cases e) (simp_all add: start_setup_def Let_def)
qed

lemma start_setup_lit:
  assumes "distinct (map fst (gpio_pins l))"
  shows "at_most_one_lit (gpio_pins l) (snd (snd (start_setup l w)))"
proof -
  let ?w2 = "setup_pins (gpio_pins l) (emit GpioSetmodeBCM
              (if \<not> debug l then emit (OsSystem ''tput civis'') (emit (OsSystem ''clear'') w) else w))"
  let ?w3 = "(if truthy (shutdown_pin l)
       then emit (GpioAddEventDetect (the (shutdown_pin l)) ShutdownLambda GPIO_BOUNCE_TIME)
              (emit (GpioSetupIn (the (shutdown_pin l))) ?w2)
       else ?w2)"
  obtain e l' w4 where d: "do_autostart l ?w3 = (e, l', w4)"
    by (cases "do_autostart l ?w3")
  have dark: "at_most_one_lit (gpio_pins l) ?w3"
    by (rule at_most_one_lit_dark) (simp add: levels_setup_pins)
  from do_autostart_frame [of l ?w3] d
  have "levels w4 = levels ?w3 \<or> (\<exists>pin. levels w4 = levels (write_outputs pin (gpio_pins l) ?w3))"
    by simp
  then have lit: "at_most_one_lit (gpio_pins l) w4"
  proof
    assume "levels w4 = levels ?w3"
    from at_most_one_lit_levels [OF this] dark show ?thesis by simp
  next
    assume "\<exists>pin. levels w4 = levels (write_outputs pin (gpio_pins l) ?w3)"
    then obtain pin where "levels w4 = levels (write_outputs pin (gpio_pins l) ?w3)" ..
    from at_most_one_lit_levels [OF this] at_most_one_lit_write [OF assms]
    show ?thesis by simp
  qed
  have "levels (snd (snd (start_setup l w))) = levels w4"
    using d by (cases e) (simp_all add: start_setup_def Let_def)
  from at_most_one_lit_levels [OF this] lit show ?thesis by simp
qed

lemma poll_body_frame:
  "gpio_pins (fst (poll_body st (l, w))) = gpio_pins l
   \<and> player (fst (poll_body st (l, w))) = player l
   \<and> loop (fst (poll_body st (l, w))) = loop l"
  by (simp add: poll_body_def)

lemma poll_body_dark:
  assumes "\<not> loop l" and "player l"
  shows "active_vid (fst (poll_body Ended (l, w))) = None
         \<and> (\<forall>q \<in> set (out_pins (gpio_pins l)). levels (snd (poll_body Ended (l, w))) q = Some LOW)"
proof -
  have "levels (clear_outputs (map snd (gpio_pins l)) w) q = Some LOW"
    if "q \<in> set (out_pins (gpio_pins l))" for q
  proof -
    from that have "Some q \<in> set (map snd (gpio_pins l))"
      by (force simp: out_pins_iff)
    then show ?thesis by (rule levels_clear_outputs)
  qed
  with assms show ?thesis by (simp add: poll_body_def)
qed

lemma poll_body_lit:
  assumes "at_most_one_lit (gpio_pins l) w"
  shows "at_most_one_lit (gpio_pins l) (snd (poll_body st (l, w)))"
proof (cases "\<not> loop l \<and> player l \<and> st = Ended")
  case True
  with poll_body_dark [of l w] show ?thesis
    by (simp add: at_most_one_lit_def)
next
  case False
  with assms show ?thesis by (auto simp: poll_body_def)
qed

lemma step_frame:
  "gpio_pins (fst (step e (l, w))) = gpio_pins l
   \<and> player (fst (step e (l, w))) = player l
   \<and> loop (fst (step e (l, w))) = loop l"
proof (cases e)
  case (Press pin)
  with switch_vid_frame [of pin l w] show ?thesis by simp
next
  case (Poll st)
  with poll_body_frame [of st l w] show ?thesis by simp
next
  case ShutdownEdge
  then show ?thesis by simp
qed

lemma step_lit:
  assumes "distinct (map fst (gpio_pins l))" and "at_most_one_lit (gpio_pins l) w"
  shows "at_most_one_lit (gpio_pins l) (snd (step e (l, w)))"
proof (cases e)
  case (Press pin)
  show ?thesis
  proof (cases "pin \<in> set (in_pins l)")
    case True
    have "levels (snd (snd (switch_vid pin l w))) = levels (write_outputs pin (gpio_pins l) w)"
      using switch_vid_frame [of pin l w] by simp
    from at_most_one_lit_levels [OF this] at_most_one_lit_write [OF assms(1)] Press True
    show ?thesis by simp
  next
    case False
    with Press assms(2) show ?thesis by simp
  qed
next
  case (Poll st)
  with poll_body_lit [OF assms(2)] show ?thesis by simp
next
  case ShutdownEdge
  have "levels (snd (shutdown_callback w)) = levels w" by simp
  from at_most_one_lit_levels [OF this] assms(2) ShutdownEdge show ?thesis by simp
qed

lemma run_frame:
  "gpio_pins (fst (run es (l, w))) = gpio_pins l
   \<and> player (fst (run es (l, w))) = player l
   \<and> loop (fst (run es (l, w))) = loop l"
proof (induction es arbitrary: l w)
  case Nil
  show ?case by simp
next
  case (Cons e es)
  obtain l1 w1 where s: "step e (l, w) = (l1, w1)" by (cases "step e (l, w)")
  from step_frame [of e l w] s
  have "gpio_pins l1 = gpio_pins l \<and> player l1 = player l \<and> loop l1 = loop l" by simp
  with Cons.IH [of l1 w1] s show ?case by simp
qed

lemma run_lit:
  assumes "distinct (map fst (gpio_pins l))" and "at_most_one_lit (gpio_pins l) w"
  shows "at_most_one_lit (gpio_pins l) (snd (run es (l, w)))"
  using assms
proof (induction es arbitrary: l w)
  case Nil
  then show ?case by simp
next
  case (Cons e es)
  obtain l1 w1 where s: "step e (l, w) = (l1, w1)" by (cases "step e (l, w)")
  from step_frame [of e l w] s have p: "gpio_pins l1 = gpio_pins l" by simp
  from step_lit [OF Cons.prems, of e] s have "at_most_one_lit (gpio_pins l) w1" by simp
  with Cons.IH [of l1 w1] Cons.prems(1) p s show ?case by simp
qed

text \<open>
  Claim C2, as amended. The pin mapping is a dict, so no input pin occurs twice. Take any
  state reached from \<^verbatim>\<open>start\<close> (whether or not its autostart raised) by any sequence of
  button presses, reports of the engine to the idle loop and edges on the shutdown pin. In
  that state at most one configured output pin is at \<open>HIGH\<close>. If moreover no two input
  pins share an output pin, then after \<^verbatim>\<open>switch_vid\<close> on a pin, whether it returned or
  raised, a configured output pin is at \<open>HIGH\<close> if and only if it is the output pin
  mapped to the pressed pin.
\<close>

theorem one_lamp:
  assumes "distinct (map fst (gpio_pins l))"
    and "start_setup l w0 = (err, l1, w1)"
    and "run es (l1, w1) = (l2, w2)"
  shows "at_most_one_lit (gpio_pins l) w2
         \<and> (distinct (out_pins (gpio_pins l)) \<longrightarrow>
             (\<forall>q \<in> set (out_pins (gpio_pins l)).
                levels (snd (snd (switch_vid pin l2 w2))) q = Some HIGH
                  \<longleftrightarrow> (pin, Some q) \<in> set (gpio_pins l)))"
proof -
  from start_setup_frame [of l w0] assms(2) have p1: "gpio_pins l1 = gpio_pins l" by simp
  from run_frame [of es l1 w1] assms(3) p1 have p2: "gpio_pins l2 = gpio_pins l" by simp
  from start_setup_lit [OF assms(1), of w0] assms(2) p1
  have "at_most_one_lit (gpio_pins l1) w1" by simp
  with run_lit [of l1 w1 es] assms(1,3) p1 have lit: "at_most_one_lit (gpio_pins l) w2" by simp
  have "levels (snd (snd (switch_vid pin l2 w2))) q = Some HIGH \<longleftrightarrow> (pin, Some q) \<in> set (gpio_pins l)"
    if d: "distinct (out_pins (gpio_pins l))" and q: "q \<in> set (out_pins (gpio_pins l))" for q
  proof -
    from q obtain i where i: "(i, Some q) \<in> set (gpio_pins l)"
      by (auto simp: out_pins_iff)
    have lv: "levels (snd (snd (switch_vid pin l2 w2))) = levels (write_outputs pin (gpio_pins l) w2)"
      using switch_vid_frame [of pin l2 w2] p2 by simp
    show ?thesis
    proof
      assume "levels (snd (snd (switch_vid pin l2 w2))) q = Some HIGH"
      with lv levels_write_outputs_distinct [OF d i, of pin w2] have "i = pin"
        by (auto split: if_splits)
      with i show "(pin, Some q) \<in> set (gpio_pins l)" by simp
    next
      assume "(pin, Some q) \<in> set (gpio_pins l)"
      from levels_write_outputs_distinct [OF d this, of pin w2] lv
      show "levels (snd (snd (switch_vid pin l2 w2))) q = Some HIGH" by simp
    qed
  qed
  with lit show ?thesis by blast
qed

theorem one_lamp_witness:
  "distinct (map fst (gpio_pins example_looper))
   \<and> distinct (out_pins (gpio_pins example_looper))
   \<and> at_most_one_lit (gpio_pins example_looper)
        (snd (run [Press 22] (snd (start_setup example_looper world0))))
   \<and> levels (snd (snd (switch_vid 17
        (fst (run [Press 22] (snd (start_setup example_looper world0))))
        (snd (run [Press 22] (snd (start_setup example_looper world0))))))) 27 = Some HIGH"
proof -
  let ?s = "start_setup example_looper world0"
  let ?r = "run [Press 22] (snd ?s)"
  have d1: "distinct (map fst (gpio_pins example_looper))"
    by (simp add: example_looper_def)
  have d2: "distinct (out_pins (gpio_pins example_looper))"
    by (simp add: example_looper_def)
  have q: "27 \<in> set (out_pins (gpio_pins example_looper))"
    by (simp add: example_looper_def)
  have m: "(17, Some 27) \<in> set (gpio_pins example_looper)"
    by (simp add: example_looper_def)
  have s: "?s = (fst ?s, fst (snd ?s), snd (snd ?s))" by simp
  have r: "run [Press 22] (fst (snd ?s), snd (snd ?s)) = (fst ?r, snd ?r)" by simp
  from one_lamp [OF d1 s r, of 17] d1 d2 q m show ?thesis
    by blast
qed

text \<open>
  The second half of the claim as stated fails when two input pins share an output pin:
  the loop writes the pin \<open>HIGH\<close> for the pressed input pin and \<open>LOW\<close> again for the
  later one. With the mapping 17:27,22:27 the autostart of \<^verbatim>\<open>start\<close> and a further press
  of pin 17 both return normally and leave pin 27, the output pin of 17, at \<open>LOW\<close>.
\<close>

theorem shared_lamp_counterexample:
  "17 \<in> set (in_pins shared_looper)
   \<and> (17, Some 27) \<in> set (gpio_pins shared_looper)
   \<and> fst (start_setup shared_looper world0) = None
   \<and> fst (switch_vid 17 (fst (snd (start_setup shared_looper world0)))
        (snd (snd (start_setup shared_looper world0)))) = None
   \<and> levels (snd (snd (switch_vid 17 (fst (snd (start_setup shared_looper world0)))
        (snd (snd (start_setup shared_looper world0)))))) 27 = Some LOW"
  by (simp add: shared_looper_def in_pins_def start_setup_def do_autostart_def switch_vid_def
      play_file_def kill_process_def truthy_def Let_def)

subsection \<open>The idle loop\<close>

lemma init_player: "init f a w = (Inr l, w') \<Longrightarrow> player l \<and> loop l = arg_loop a"
  by (auto simp: init_def Let_def split: sum.splits option.splits if_splits)

lemma constructed_collapse: "constructed r \<Longrightarrow> r = (Inr (projr (fst r)), snd r)"
  by (cases r, cases "fst r") (auto simp: constructed_def)

text \<open>
  Claim C8. Take any state of the idle loop: the object was constructed, \<^verbatim>\<open>start\<close>
  reached the loop, and any sequence of events followed. With looping disabled, an
  iteration in which the engine reports \<^verbatim>\<open>Ended\<close> clears the active video and leaves
  every configured output pin at \<open>LOW\<close>. With looping enabled, an iteration changes
  neither the object nor the world, whatever the engine reports.
\<close>

theorem poll_body_reset:
  assumes "init f a w0 = (Inr l0, w1)"
    and "start_setup l0 w1 = (None, l1, w2)"
    and "run es (l1, w2) = (l, w)"
  shows "(\<not> loop l \<longrightarrow>
            active_vid (fst (poll_body Ended (l, w))) = None
            \<and> (\<forall>q \<in> set (out_pins (gpio_pins l)). levels (snd (poll_body Ended (l, w))) q = Some LOW))
         \<and> (loop l \<longrightarrow> poll_body st (l, w) = (l, w))"
proof -
  from init_player [OF assms(1)] have "player l0" by simp
  with start_setup_frame [of l0 w1] assms(2) have "player l1" by simp
  with run_frame [of es l1 w2] assms(3) have "player l" by simp
  with poll_body_dark [of l w] show ?thesis
    by (simp add: poll_body_def)
qed

theorem poll_body_reset_witness:
  "constructed (init example_fs noloop_args world0)
   \<and> fst (start_setup (projr (fst (init example_fs noloop_args world0)))
            (snd (init example_fs noloop_args world0))) = None
   \<and> \<not> loop (fst (run [Press 19] (snd (start_setup (projr (fst (init example_fs noloop_args world0)))
            (snd (init example_fs noloop_args world0))))))
   \<and> active_vid (fst (poll_body Ended (run [Press 19] (snd (start_setup (projr (fst (init example_fs noloop_args world0)))
            (snd (init example_fs noloop_args world0))))))) = None
   \<and> levels (snd (poll_body Ended (run [Press 19] (snd (start_setup (projr (fst (init example_fs noloop_args world0)))
            (snd (init example_fs noloop_args world0))))))) 20 = Some LOW
   \<and> constructed (init example_fs (noloop_args\<lparr>arg_loop := True\<rparr>) world0)
   \<and> fst (start_setup (projr (fst (init example_fs (noloop_args\<lparr>arg_loop := True\<rparr>) world0)))
            (snd (init example_fs (noloop_args\<lparr>arg_loop := True\<rparr>) world0))) = None
   \<and> loop (fst (snd (start_setup (projr (fst (init example_fs (noloop_args\<lparr>arg_loop := True\<rparr>) world0)))
            (snd (init example_fs (noloop_args\<lparr>arg_loop := True\<rparr>) world0)))))
   \<and> poll_body Ended (snd (start_setup (projr (fst (init example_fs (noloop_args\<lparr>arg_loop := True\<rparr>) world0)))
            (snd (init example_fs (noloop_args\<lparr>arg_loop := True\<rparr>) world0))))
       = snd (start_setup (projr (fst (init example_fs (noloop_args\<lparr>arg_loop := True\<rparr>) world0)))
            (snd (init example_fs (noloop_args\<lparr>arg_loop := True\<rparr>) world0)))"
proof -
  let ?i = "init example_fs noloop_args world0"
  let ?s = "start_setup (projr (fst ?i)) (snd ?i)"
  let ?r = "run [Press 19] (snd ?s)"
  have c: "constructed ?i"
    by (simp add: init_def self_videos_def check_videos_def path_exists_def pins_of_def
        GPIO_PIN_DEFAULT_def constructed_def noloop_args_def example_fs_def Let_def)
  from constructed_collapse [OF c] have i: "?i = (Inr (projr (fst ?i)), snd ?i)" .
  have l0: "projr (fst ?i) = \<lparr>gpio_pins = GPIO_PIN_DEFAULT, shutdown_pin = None,
      videos = [''A.mp4'', ''B.mp4''], debug = False, audio = ''hdmi'', autostart = True,
      restart_on_press = False, loop = False, no_osd = False, splash = None,
      splashproc = None, active_vid = None, player = True\<rparr>"
    by (simp add: init_def self_videos_def check_videos_def path_exists_def pins_of_def
        GPIO_PIN_DEFAULT_def noloop_args_def example_fs_def Let_def)
  have e: "fst ?s = None"
    by (simp add: l0 GPIO_PIN_DEFAULT_def in_pins_def start_setup_def do_autostart_def
        switch_vid_def play_file_def Let_def split: prod.splits)
  then have s: "?s = (None, fst (snd ?s), snd (snd ?s))"
    by (simp add: prod_eq_iff)
  have r: "run [Press 19] (fst (snd ?s), snd (snd ?s)) = (fst ?r, snd ?r)" by simp
  have nl: "\<not> loop (fst ?r)"
    using run_frame [of "[Press 19]" "fst (snd ?s)" "snd (snd ?s)"]
      start_setup_frame [of "projr (fst ?i)" "snd ?i"] l0
    by simp
  have p: "gpio_pins (fst ?r) = GPIO_PIN_DEFAULT"
    using run_frame [of "[Press 19]" "fst (snd ?s)" "snd (snd ?s)"]
      start_setup_frame [of "projr (fst ?i)" "snd ?i"] l0
    by simp
  then have q: "20 \<in> set (out_pins (gpio_pins (fst ?r)))"
    by (simp add: GPIO_PIN_DEFAULT_def)
  let ?j = "init example_fs (noloop_args\<lparr>arg_loop := True\<rparr>) world0"
  let ?t = "start_setup (projr (fst ?j)) (snd ?j)"
  have c': "constructed ?j"
    by (simp add: init_def self_videos_def check_videos_def path_exists_def pins_of_def
        GPIO_PIN_DEFAULT_def constructed_def noloop_args_def example_fs_def Let_def)
  from constructed_collapse [OF c'] have j: "?j = (Inr (projr (fst ?j)), snd ?j)" .
  have l0': "projr (fst ?j) = \<lparr>gpio_pins = GPIO_PIN_DEFAULT, shutdown_pin = None,
      videos = [''A.mp4'', ''B.mp4''], debug = False, audio = ''hdmi'', autostart = True,
      restart_on_press = False, loop = True, no_osd = False, splash = None,
      splashproc = None, active_vid = None, player = True\<rparr>"
    by (simp add: init_def self_videos_def check_videos_def path_exists_def pins_of_def
        GPIO_PIN_DEFAULT_def noloop_args_def example_fs_def Let_def)
  have e': "fst ?t = None"
    by (simp add: l0' GPIO_PIN_DEFAULT_def in_pins_def start_setup_def do_autostart_def
        switch_vid_def play_file_def Let_def split: prod.splits)
  then have t: "?t = (None, fst (snd ?t), snd (snd ?t))"
    by (simp add: prod_eq_iff)
  have r': "run [] (fst (snd ?t), snd (snd ?t)) = (fst (snd ?t), snd (snd ?t))" by simp
  have lp: "loop (fst (snd ?t))"
    using start_setup_frame [of "projr (fst ?j)" "snd ?j"] l0' by simp
  from poll_body_reset [OF i s r, of Ended] poll_body_reset [OF j t r', of Ended]
    c e nl q c' e' lp
  show ?thesis
    by simp
qed

subsection \<open>The flag \<^verbatim>\<open>no_osd\<close>\<close>

lemma init_no_osd:
  "init f (a\<lparr>arg_no_osd := b\<rparr>) w =
     (case init f a w of
        (Inl e, w') \<Rightarrow> (Inl e, w')
      | (Inr l, w') \<Rightarrow> (Inr (l\<lparr>no_osd := b\<rparr>), w'))"
  by (simp add: init_def self_videos_def check_videos_def pins_of_def Let_def
      split: sum.splits option.splits)

lemma play_file_no_osd:
  "play_file filename (l\<lparr>no_osd := b\<rparr>) w =
     (case play_file filename l w of (e, l', w') \<Rightarrow> (e, l'\<lparr>no_osd := b\<rparr>, w'))"
  by (simp add: play_file_def kill_process_def Let_def)

lemma switch_vid_no_osd:
  "switch_vid pin (l\<lparr>no_osd := b\<rparr>) w =
     (case switch_vid pin l w of (e, l', w') \<Rightarrow> (e, l'\<lparr>no_osd := b\<rparr>, w'))"
  by (simp add: switch_vid_def in_pins_def play_file_no_osd Let_def split: option.splits)

lemma do_autostart_no_osd:
  "do_autostart (l\<lparr>no_osd := b\<rparr>) w =
     (case do_autostart l w of (e, l', w') \<Rightarrow> (e, l'\<lparr>no_osd := b\<rparr>, w'))"
  by (simp add: do_autostart_def in_pins_def switch_vid_no_osd split: option.splits list.splits)

lemma start_setup_no_osd:
  "start_setup (l\<lparr>no_osd := b\<rparr>) w =
     (case start_setup l w of (e, l', w') \<Rightarrow> (e, l'\<lparr>no_osd := b\<rparr>, w'))"
  by (simp add: start_setup_def do_autostart_no_osd in_pins_def Let_def split: prod.splits option.splits)

lemma step_no_osd:
  "step ev (l\<lparr>no_osd := b\<rparr>, w) = (case step ev (l, w) of (l', w') \<Rightarrow> (l'\<lparr>no_osd := b\<rparr>, w'))"
proof (cases ev)
  case (Press pin)
  then show ?thesis
    by (simp add: switch_vid_no_osd in_pins_def split: prod.splits)
next
  case (Poll st)
  then show ?thesis by (simp add: poll_body_def)
next
  case ShutdownEdge
  then show ?thesis by simp
qed

lemma run_no_osd:
  "run es (l\<lparr>no_osd := b\<rparr>, w) = (case run es (l, w) of (l', w') \<Rightarrow> (l'\<lparr>no_osd := b\<rparr>, w'))"
proof (induction es arbitrary: l w)
  case Nil
  show ?case by simp
next
  case (Cons ev es)
  obtain l1 w1 where s: "step ev (l, w) = (l1, w1)" by (cases "step ev (l, w)")
  with step_no_osd [of ev b l w] Cons.IH [of l1 w1] show ?case by simp
qed

lemma start_no_osd:
  "start es (l\<lparr>no_osd := b\<rparr>) w =
     (case start es l w of (e, l', w') \<Rightarrow> (e, l'\<lparr>no_osd := b\<rparr>, w'))"
proof -
  obtain e l1 w1 where s: "start_setup l w = (e, l1, w1)" by (cases "start_setup l w")
  obtain l2 w2 where r: "run es (l1, w1) = (l2, w2)" by (cases "run es (l1, w1)")
  from s r start_setup_no_osd [of b l w] run_no_osd [of es b l1 w1] show ?thesis
    by (cases e) (simp_all add: start_def)
qed

text \<open>
  Claim C10. Running the program (construction, \<^verbatim>\<open>start\<close>, and any sequence of events)
  with the flag \<^verbatim>\<open>no_osd\<close> set to any value gives the same exception, the same world
  (every call to the playback engine and to the GPIO library, and every pin level) and the
  same object, but for the stored flag itself.
\<close>

theorem no_osd_unused:
  "program f (a\<lparr>arg_no_osd := b\<rparr>) es w =
     (case program f a es w of
        (e, obj, w') \<Rightarrow> (e, map_option (\<lambda>l. l\<lparr>no_osd := b\<rparr>) obj, w'))"
proof (cases "init f a w")
  case (Pair r w1)
  show ?thesis
  proof (cases r)
    case (Inl e)
    with Pair init_no_osd [of f b a w] show ?thesis
      by (simp add: program_def)
  next
    case (Inr l)
    obtain e l2 w2 where s: "start es l w1 = (e, l2, w2)" by (cases "start es l w1")
    with Pair Inr init_no_osd [of f b a w] start_no_osd [of es b l w1] show ?thesis
      by (simp add: program_def)
  qed
qed

end
